theory Spec2Isabelle
  imports Main
begin

section \<open>The resume pipeline of pdf_extractor.py\<close>

text \<open>
  The development embeds \<^verbatim>\<open>src/pdf_extractor.py\<close>: the Multi-Resume Detector
  (\<^verbatim>\<open>check_multiple_resumes\<close>), the Resume Splitter (\<^verbatim>\<open>split_resumes\<close>), the Field
  Extractor (\<^verbatim>\<open>process_single_resume\<close>), the per-file and per-batch drivers
  (\<^verbatim>\<open>process_pdf_file\<close>, \<^verbatim>\<open>process_multiple_files\<close>) and the Record Aggregator
  (\<^verbatim>\<open>json_to_csv\<close>).

  What the program does not implement itself is a parameter of the model, collected in the
  record \<open>env\<close>: the transcription and splitting service \<^verbatim>\<open>zerox\<close>, the language model
  \<^verbatim>\<open>llm.invoke\<close>, the parser \<^verbatim>\<open>json.loads\<close>, the directory operations and Python's
  \<^verbatim>\<open>repr\<close> of containers. The services are stateful: each call reads and changes a hidden
  world of type \<open>'w\<close>, so the same prompt may be answered differently at different times.
  Every call of a service is also appended to a call log, so that "the service was (not)
  called" is a property of the final state.

  Python exceptions are values. The type \<open>exn\<close> stands for the subclasses of
  \<^verbatim>\<open>Exception\<close>, which is what \<^verbatim>\<open>except Exception\<close> catches; interrupts of the run
  (\<^verbatim>\<open>KeyboardInterrupt\<close>, \<^verbatim>\<open>SystemExit\<close>, task cancellation) derive from
  \<^verbatim>\<open>BaseException\<close>, end the process and are not modelled. \<^verbatim>\<open>print\<close> and
  \<^verbatim>\<open>logging.error\<close> only report and are left out.
\<close>

subsection \<open>Python values\<close>

datatype exn = JSONDecodeError | TypeError | AttributeError | OtherException string

text \<open>
  The values \<^verbatim>\<open>json.loads\<close> can return. A \<^verbatim>\<open>dict\<close> is an association list in
  insertion order (keys distinct); a \<^verbatim>\<open>float\<close> is carried as its \<^verbatim>\<open>repr\<close>, the
  shortest decimal string that reads back as the same float. A \<open>string\<close> stands for a Python
  \<^verbatim>\<open>str\<close>, one \<open>char\<close> per character.
\<close>

datatype json =
    JNull
  | JBool bool
  | JInt int
  | JFloat string
  | JStr string
  | JList "json list"
  | JObj "(string \<times> json) list"

text \<open>What \<^verbatim>\<open>zerox(text=..., return_segments=True)\<close> returns, as far as
  \<^verbatim>\<open>split_resumes\<close> inspects it: a \<^verbatim>\<open>list\<close> (of the segments) or any other object.\<close>

datatype zerox_value = ZList "string list" | ZOther

datatype call =
    Transcribe string string
  | Invoke string
  | Split string

type_synonym 'w state = "'w \<times> call list"

record 'w env =
  zerox_file :: "string \<Rightarrow> string \<Rightarrow> 'w \<Rightarrow> (exn + string) \<times> 'w"
  zerox_text :: "string \<Rightarrow> 'w \<Rightarrow> (exn + zerox_value) \<times> 'w"
  llm_invoke :: "string \<Rightarrow> 'w \<Rightarrow> (exn + string) \<times> 'w"
  json_loads :: "string \<Rightarrow> exn + json"
  py_repr :: "json \<Rightarrow> string"
  mkdir :: "string \<Rightarrow> exn + unit"
  glob_pdf :: "string \<Rightarrow> string list"

text \<open>The three services, with the call recorded in the log.\<close>

definition transcribe ::
  "'w env \<Rightarrow> string \<Rightarrow> string \<Rightarrow> 'w state \<Rightarrow> (exn + string) \<times> 'w state" where
  "transcribe env file_path output_dir s =
     (case zerox_file env file_path output_dir (fst s) of
        (r, w') \<Rightarrow> (r, (w', snd s @ [Transcribe file_path output_dir])))"

definition invoke :: "'w env \<Rightarrow> string \<Rightarrow> 'w state \<Rightarrow> (exn + string) \<times> 'w state" where
  "invoke env content s =
     (case llm_invoke env content (fst s) of
        (r, w') \<Rightarrow> (r, (w', snd s @ [Invoke content])))"

definition zerox_split ::
  "'w env \<Rightarrow> string \<Rightarrow> 'w state \<Rightarrow> (exn + zerox_value) \<times> 'w state" where
  "zerox_split env text s =
     (case zerox_text env text (fst s) of
        (r, w') \<Rightarrow> (r, (w', snd s @ [Split text])))"

subsection \<open>Operations of the Python runtime\<close>

text \<open>\<^verbatim>\<open>d.get(key, default)\<close>: only a \<^verbatim>\<open>dict\<close> has the method.\<close>

fun py_get :: "json \<Rightarrow> string \<Rightarrow> json \<Rightarrow> exn + json" where
  "py_get (JObj kvs) key dflt = (case map_of kvs key of None \<Rightarrow> Inr dflt | Some v \<Rightarrow> Inr v)"
| "py_get _ key dflt = Inl AttributeError"

text \<open>\<^verbatim>\<open>d[key] = v\<close> on a \<^verbatim>\<open>dict\<close>: an existing key keeps its place, a new one goes
  last.\<close>

fun dict_set :: "(string \<times> json) list \<Rightarrow> string \<Rightarrow> json \<Rightarrow> (string \<times> json) list" where
  "dict_set [] key v = [(key, v)]"
| "dict_set ((k, x) # kvs) key v =
     (if k = key then (k, v) # kvs else (k, x) # dict_set kvs key v)"

text \<open>\<^verbatim>\<open>obj[key] = v\<close> with a string key: a \<^verbatim>\<open>list\<close>, a \<^verbatim>\<open>str\<close>, a number and
  \<^verbatim>\<open>None\<close> raise \<^verbatim>\<open>TypeError\<close>.\<close>

fun py_setitem :: "json \<Rightarrow> string \<Rightarrow> json \<Rightarrow> exn + json" where
  "py_setitem (JObj kvs) key v = Inr (JObj (dict_set kvs key v))"
| "py_setitem _ key v = Inl TypeError"

text \<open>Truth value of an object, as \<^verbatim>\<open>if x\<close> and \<^verbatim>\<open>x or y\<close> test it.\<close>

fun truthy :: "json \<Rightarrow> bool" where
  "truthy JNull = False"
| "truthy (JBool b) = b"
| "truthy (JInt i) = (i \<noteq> 0)"
| "truthy (JFloat r) = (r \<noteq> ''0.0'' \<and> r \<noteq> ''-0.0'')"
| "truthy (JStr s) = (s \<noteq> [])"
| "truthy (JList xs) = (xs \<noteq> [])"
| "truthy (JObj kvs) = (kvs \<noteq> [])"

text \<open>\<^verbatim>\<open>for x in obj\<close>: a list gives its elements, a dict its keys, a string its
  characters; \<^verbatim>\<open>None\<close> and numbers raise \<^verbatim>\<open>TypeError\<close>.\<close>

fun py_iter :: "json \<Rightarrow> exn + json list" where
  "py_iter (JList xs) = Inr xs"
| "py_iter (JObj kvs) = Inr (map (\<lambda>kv. JStr (fst kv)) kvs)"
| "py_iter (JStr s) = Inr (map (\<lambda>c. JStr [c]) s)"
| "py_iter _ = Inl TypeError"

fun digits :: "nat \<Rightarrow> string" where
  "digits n =
     (if n < 10 then [''0123456789'' ! n]
      else digits (n div 10) @ [''0123456789'' ! (n mod 10)])"

definition str_int :: "int \<Rightarrow> string" where
  "str_int i = (if i < 0 then ''-'' @ digits (nat (- i)) else digits (nat i))"

text \<open>\<^verbatim>\<open>str(x)\<close>. For a list or a dict it is \<^verbatim>\<open>repr(x)\<close>, which the environment
  supplies.\<close>

fun py_str :: "'w env \<Rightarrow> json \<Rightarrow> string" where
  "py_str env JNull = ''None''"
| "py_str env (JBool b) = (if b then ''True'' else ''False'')"
| "py_str env (JInt i) = str_int i"
| "py_str env (JFloat r) = r"
| "py_str env (JStr s) = s"
| "py_str env (JList xs) = py_repr env (JList xs)"
| "py_str env (JObj kvs) = py_repr env (JObj kvs)"

text \<open>\<^verbatim>\<open>sep.join(xs)\<close>.\<close>

fun join :: "string \<Rightarrow> string list \<Rightarrow> string" where
  "join sep [] = []"
| "join sep [x] = x"
| "join sep (x # y # ys) = x @ sep @ join sep (y # ys)"

definition NL :: string where
  "NL = [CHR 0x0A]"

text \<open>\<^verbatim>\<open>s.replace('\n', ' ')\<close>.\<close>

definition replace_newlines :: "string \<Rightarrow> string" where
  "replace_newlines s = map (\<lambda>c. if c = CHR 0x0A then CHR '' '' else c) s"

subsection \<open>Prompts\<close>

definition SPLIT_PROMPT :: string where
  \<open>SPLIT_PROMPT = NL @ concat (map (\<lambda>l. l @ NL)
     [''You are a document analyzer. Your task is to:'',
      ''1. Determine if this document contains multiple resumes'',
      ''2. If it does, identify where each resume starts and ends'',
      ''3. Return the count of resumes found'',
      '''',
      ''Look for clear indicators like:'',
      ''- New contact information sections'',
      ''- Multiple different names'',
      ''- Distinct education/experience sections'',
      ''- Page breaks between resumes'',
      '''',
      ''Return your response as a JSON with:'',
      ''- "multiple_resumes": boolean'',
      ''- "resume_count": number''])\<close>

text \<open>\<^verbatim>\<open>RESUME_PROMPT\<close> with \<^verbatim>\<open>{text}\<close> filled in, as
  \<^verbatim>\<open>prompt.format_messages(text=text)\<close> builds the one message it returns.\<close>

definition RESUME_PROMPT :: "string \<Rightarrow> string" where
  \<open>RESUME_PROMPT text = NL @ concat (map (\<lambda>l. l @ NL)
     [''You are a resume parser. Extract the following information from the resume in a structured format:'',
      ''- Full Name'',
      ''- Email'',
      ''- Phone Number'',
      ''- Education (including institution, degree, graduation year)'',
      ''- Work Experience (including company names, positions, dates)'',
      ''- Skills'',
      ''- Certifications (if any)'',
      '''',
      ''Resume content:'',
      text,
      '''',
      ''Format the output as a JSON object with these fields. Ensure the output is valid JSON format.''])\<close>

subsection \<open>Multi-Resume Detector\<close>

text \<open>The result \<^verbatim>\<open>except json.JSONDecodeError\<close> returns.\<close>

definition default_detection :: json where
  "default_detection = JObj [(''multiple_resumes'', JBool False), (''resume_count'', JInt 1)]"

text \<open>\<^verbatim>\<open>llm.invoke\<close> stands outside the \<^verbatim>\<open>try\<close>, and the handler catches
  \<^verbatim>\<open>JSONDecodeError\<close> only.\<close>

definition check_multiple_resumes ::
  "'w env \<Rightarrow> string \<Rightarrow> 'w state \<Rightarrow> (exn + json) \<times> 'w state" where
  "check_multiple_resumes env text s =
     (case invoke env (SPLIT_PROMPT @ NL @ NL @ text) s of
        (Inl e, s1) \<Rightarrow> (Inl e, s1)
      | (Inr content, s1) \<Rightarrow>
          (case json_loads env content of
             Inr v \<Rightarrow> (Inr v, s1)
           | Inl JSONDecodeError \<Rightarrow> (Inr default_detection, s1)
           | Inl e \<Rightarrow> (Inl e, s1)))"

subsection \<open>Resume Splitter\<close>

definition split_resumes ::
  "'w env \<Rightarrow> string \<Rightarrow> 'w state \<Rightarrow> (exn + string list) \<times> 'w state" where
  "split_resumes env text s =
     (case zerox_split env text s of
        (Inl e, s1) \<Rightarrow> (Inr [text], s1)
      | (Inr (ZList segments), s1) \<Rightarrow> (Inr segments, s1)
      | (Inr ZOther, s1) \<Rightarrow> (Inr [text], s1))"

subsection \<open>Field Extractor\<close>

text \<open>The inner handler catches \<^verbatim>\<open>JSONDecodeError\<close>, the outer one every other exception
  of the model call or of the parser.\<close>

definition process_single_resume ::
  "'w env \<Rightarrow> string \<Rightarrow> 'w state \<Rightarrow> (exn + json) \<times> 'w state" where
  "process_single_resume env text s =
     (case invoke env (RESUME_PROMPT text) s of
        (Inl e, s1) \<Rightarrow> (Inr (JObj []), s1)
      | (Inr content, s1) \<Rightarrow>
          (case json_loads env content of
             Inr v \<Rightarrow> (Inr v, s1)
           | Inl JSONDecodeError \<Rightarrow> (Inr (JObj []), s1)
           | Inl e \<Rightarrow> (Inr (JObj []), s1)))"

subsection \<open>Batch Orchestrator\<close>

text \<open>Lines 125 to 129 of \<^verbatim>\<open>process_pdf_file\<close>: the splitter runs only when
  \<^verbatim>\<open>check_result.get("multiple_resumes", False)\<close> is true.\<close>

definition resume_texts_of ::
  "'w env \<Rightarrow> json \<Rightarrow> string \<Rightarrow> 'w state \<Rightarrow> (exn + string list) \<times> 'w state" where
  "resume_texts_of env check_result extracted_text s =
     (case py_get check_result ''multiple_resumes'' (JBool False) of
        Inl e \<Rightarrow> (Inl e, s)
      | Inr flag \<Rightarrow>
          (if truthy flag then split_resumes env extracted_text s
           else (Inr [extracted_text], s)))"

text \<open>The loop \<^verbatim>\<open>for idx, resume_text in enumerate(resume_texts, 1)\<close>, with the list
  \<^verbatim>\<open>results\<close> built so far.\<close>

fun process_resumes ::
  "'w env \<Rightarrow> int \<Rightarrow> string list \<Rightarrow> json list \<Rightarrow> 'w state \<Rightarrow> (exn + json list) \<times> 'w state" where
  "process_resumes env idx [] results s = (Inr results, s)"
| "process_resumes env idx (resume_text # rest) results s =
     (case process_single_resume env resume_text s of
        (Inl e, s1) \<Rightarrow> (Inl e, s1)
      | (Inr result, s1) \<Rightarrow>
          (case py_setitem result ''resume_index'' (JInt idx) of
             Inl e \<Rightarrow> (Inl e, s1)
           | Inr result' \<Rightarrow> process_resumes env (idx + 1) rest (results @ [result']) s1))"

text \<open>The body of the \<^verbatim>\<open>try\<close> of \<^verbatim>\<open>process_pdf_file\<close>.\<close>

definition process_pdf_body ::
  "'w env \<Rightarrow> string \<Rightarrow> string \<Rightarrow> 'w state \<Rightarrow> (exn + json list) \<times> 'w state" where
  "process_pdf_body env file_path output_dir s =
     (case transcribe env file_path output_dir s of
        (Inl e, s1) \<Rightarrow> (Inl e, s1)
      | (Inr extracted_text, s1) \<Rightarrow>
          (case check_multiple_resumes env extracted_text s1 of
             (Inl e, s2) \<Rightarrow> (Inl e, s2)
           | (Inr check_result, s2) \<Rightarrow>
               (case resume_texts_of env check_result extracted_text s2 of
                  (Inl e, s3) \<Rightarrow> (Inl e, s3)
                | (Inr resume_texts, s3) \<Rightarrow> process_resumes env 1 resume_texts [] s3)))"

definition process_pdf_file ::
  "'w env \<Rightarrow> string \<Rightarrow> string \<Rightarrow> 'w state \<Rightarrow> (exn + json list) \<times> 'w state" where
  "process_pdf_file env file_path output_dir s =
     (case process_pdf_body env file_path output_dir s of
        (Inl e, s1) \<Rightarrow> (Inr [JObj []], s1)
      | (Inr results, s1) \<Rightarrow> (Inr results, s1))"

text \<open>The loop over \<^verbatim>\<open>pdf_files\<close>, with the dict \<^verbatim>\<open>results\<close> built so far.\<close>

fun process_files ::
  "'w env \<Rightarrow> string list \<Rightarrow> string \<Rightarrow> (string \<rightharpoonup> json list) \<Rightarrow> 'w state \<Rightarrow>
     (exn + (string \<rightharpoonup> json list)) \<times> 'w state" where
  "process_files env [] output_dir results s = (Inr results, s)"
| "process_files env (pdf_file # rest) output_dir results s =
     (case process_pdf_file env pdf_file output_dir s of
        (Inl e, s1) \<Rightarrow> (Inl e, s1)
      | (Inr file_results, s1) \<Rightarrow>
          process_files env rest output_dir (results(pdf_file \<mapsto> file_results)) s1)"

definition process_multiple_files ::
  "'w env \<Rightarrow> string \<Rightarrow> string \<Rightarrow> 'w state \<Rightarrow> (exn + (string \<rightharpoonup> json list)) \<times> 'w state" where
  "process_multiple_files env resume_directory output_dir s =
     (case mkdir env output_dir of
        Inl e \<Rightarrow> (Inl e, s)
      | Inr _ \<Rightarrow> process_files env (glob_pdf env resume_directory) output_dir Map.empty s)"

subsection \<open>Record Aggregator\<close>

text \<open>
  The file system maps a path to the content of the file there, \<open>None\<close> when no file
  exists. The table is written through \<^verbatim>\<open>csv.writer\<close> only, so its content is the
  list of the rows written, each row the list of its cells; how the writer quotes and
  terminates a row is the library's business. The directory is taken to exist and the
  writes to succeed.
\<close>

datatype path = Path string | Child path string

type_synonym files = "path \<rightharpoonup> string list list"

definition HEADER :: "string list" where
  "HEADER = [''Name'', ''Email'', ''Mobile'', ''Experience'', ''Skills'']"

text \<open>Lines 179 to 182. \<^verbatim>\<open>resume.get\<close> needs a dict and the generator needs an iterable
  \<^verbatim>\<open>skills\<close>.\<close>

definition skills_str :: "'w env \<Rightarrow> json \<Rightarrow> exn + string" where
  "skills_str env resume =
     (case py_get resume ''skills'' (JList []) of
        Inl e \<Rightarrow> Inl e
      | Inr skills \<Rightarrow>
          (case py_iter (if skills = JNull then JList [] else skills) of
             Inl e \<Rightarrow> Inl e
           | Inr elems \<Rightarrow>
               Inr (join '';'' (map (py_str env) (filter (\<lambda>skill. skill \<noteq> JNull) elems)))))"

text \<open>Lines 185 to 189.\<close>

definition experience_str :: "'w env \<Rightarrow> json \<Rightarrow> exn + string" where
  "experience_str env resume =
     (case py_get resume ''experience'' (JStr '''') of
        Inl e \<Rightarrow> Inl e
      | Inr experience \<Rightarrow>
          (if experience \<noteq> JNull then Inr (replace_newlines (py_str env experience))
           else Inr ''''))"

text \<open>\<^verbatim>\<open>str(resume.get(key, '') or '')\<close>.\<close>

definition field_str :: "'w env \<Rightarrow> json \<Rightarrow> string \<Rightarrow> exn + string" where
  "field_str env resume key =
     (case py_get resume key (JStr '''') of
        Inl e \<Rightarrow> Inl e
      | Inr v \<Rightarrow> Inr (py_str env (if truthy v then v else JStr '''')))"

text \<open>The row of one element of the parsed array, in the order the loop body evaluates it.\<close>

definition csv_row :: "'w env \<Rightarrow> json \<Rightarrow> exn + string list" where
  "csv_row env resume =
     (case skills_str env resume of
        Inl e \<Rightarrow> Inl e
      | Inr skills \<Rightarrow>
          (case experience_str env resume of
             Inl e \<Rightarrow> Inl e
           | Inr experience \<Rightarrow>
               (case field_str env resume ''name'' of
                  Inl e \<Rightarrow> Inl e
                | Inr name \<Rightarrow>
                    (case field_str env resume ''email'' of
                       Inl e \<Rightarrow> Inl e
                     | Inr email \<Rightarrow>
                         (case field_str env resume ''mobile'' of
                            Inl e \<Rightarrow> Inl e
                          | Inr mobile \<Rightarrow> Inr [name, email, mobile, experience, skills])))))"

text \<open>The loop \<^verbatim>\<open>for resume in parsed_json\<close> on the open file \<open>f\<close>: a row that cannot be
  built ends the loop, the rows before it are written.\<close>

fun write_rows ::
  "'w env \<Rightarrow> json list \<Rightarrow> string list list \<Rightarrow> (exn + unit) \<times> string list list" where
  "write_rows env [] f = (Inr (), f)"
| "write_rows env (resume # rest) f =
     (case csv_row env resume of
        Inl e \<Rightarrow> (Inl e, f)
      | Inr row \<Rightarrow> write_rows env rest (f @ [row]))"

definition csv_path :: "string \<Rightarrow> path" where
  "csv_path output_dir = Child (Path output_dir) ''parsed_resumes.csv''"

text \<open>The body of the \<^verbatim>\<open>with open(csv_file, 'a', ...)\<close> block; leaving the block closes
  the file, also when an exception leaves it.\<close>

definition append_csv ::
  "'w env \<Rightarrow> json \<Rightarrow> bool \<Rightarrow> string list list \<Rightarrow> (exn + unit) \<times> string list list" where
  "append_csv env parsed_json file_exists f =
     (let f1 = (if \<not> file_exists then f @ [HEADER] else f)
      in case py_iter parsed_json of
           Inl e \<Rightarrow> (Inl e, f1)
         | Inr resumes \<Rightarrow> write_rows env resumes f1)"

text \<open>Both handlers return normally. Opening in mode \<^verbatim>\<open>'a'\<close> creates a missing file
  empty and keeps the content of an existing one.\<close>

definition json_to_csv ::
  "'w env \<Rightarrow> string \<Rightarrow> string \<Rightarrow> files \<Rightarrow> (exn + unit) \<times> files" where
  "json_to_csv env json_content output_dir fs =
     (case json_loads env json_content of
        Inl JSONDecodeError \<Rightarrow> (Inr (), fs)
      | Inl e \<Rightarrow> (Inr (), fs)
      | Inr parsed_json \<Rightarrow>
          (let csv_file = csv_path output_dir;
               file_exists = (fs csv_file \<noteq> None);
               f = (case fs csv_file of None \<Rightarrow> [] | Some rows \<Rightarrow> rows)
           in case append_csv env parsed_json file_exists f of
                (Inl e, f') \<Rightarrow> (Inr (), fs(csv_file \<mapsto> f'))
              | (Inr _, f') \<Rightarrow> (Inr (), fs(csv_file \<mapsto> f'))))"

subsection \<open>Derived notions used in the statements\<close>

fun is_dict :: "json \<Rightarrow> bool" where
  "is_dict (JObj kvs) = True"
| "is_dict _ = False"

text \<open>What \<^verbatim>\<open>process_single_resume\<close> returns for the segments of one file, in segment
  order, each call starting in the state the previous one left.\<close>

fun extractions :: "'w env \<Rightarrow> string list \<Rightarrow> 'w state \<Rightarrow> json list" where
  "extractions env [] s = []"
| "extractions env (resume_text # rest) s =
     (case process_single_resume env resume_text s of
        (Inl e, s1) \<Rightarrow> []
      | (Inr result, s1) \<Rightarrow> result # extractions env rest s1)"

text \<open>The data rows one aggregation call appends for the parsed value: the rows of the
  elements that come before the first element whose row cannot be built.\<close>

definition data_rows :: "'w env \<Rightarrow> json \<Rightarrow> string list list" where
  "data_rows env parsed_json =
     (case py_iter parsed_json of
        Inl e \<Rightarrow> []
      | Inr resumes \<Rightarrow> snd (write_rows env resumes []))"

subsection \<open>Scripted environments\<close>

text \<open>
  For running the pipeline on concrete inputs: the hidden world holds, for each service,
  the outcomes of its coming calls in order, and \<open>toy_loads\<close> is \<^verbatim>\<open>json.loads\<close> on the
  handful of texts the examples use (everything else is not JSON).
\<close>

datatype script =
  Script (transcripts: "(exn + string) list")
         (replies: "(exn + string) list")
         (splittings: "(exn + zerox_value) list")

definition next_transcript :: "script \<Rightarrow> (exn + string) \<times> script" where
  "next_transcript w =
     (case transcripts w of
        [] \<Rightarrow> (Inl (OtherException ''end of script''), w)
      | r # rs \<Rightarrow> (r, Script rs (replies w) (splittings w)))"

definition next_reply :: "script \<Rightarrow> (exn + string) \<times> script" where
  "next_reply w =
     (case replies w of
        [] \<Rightarrow> (Inl (OtherException ''end of script''), w)
      | r # rs \<Rightarrow> (r, Script (transcripts w) rs (splittings w)))"

definition next_splitting :: "script \<Rightarrow> (exn + zerox_value) \<times> script" where
  "next_splitting w =
     (case splittings w of
        [] \<Rightarrow> (Inl (OtherException ''end of script''), w)
      | r # rs \<Rightarrow> (r, Script (transcripts w) (replies w) rs))"

definition toy_loads :: "string \<Rightarrow> exn + json" where
  \<open>toy_loads c =
     (if c = ''{}'' then Inr (JObj [])
      else if c = ''[]'' then Inr (JList [])
      else if c = ''7'' then Inr (JInt 7)
      else if c = ''{"name": "Ann"}'' then Inr (JObj [(''name'', JStr ''Ann'')])
      else if c = ''{"multiple_resumes": false, "resume_count": 1}''
        then Inr (JObj [(''multiple_resumes'', JBool False), (''resume_count'', JInt 1)])
      else if c = ''{"multiple_resumes": true, "resume_count": 3}''
        then Inr (JObj [(''multiple_resumes'', JBool True), (''resume_count'', JInt 3)])
      else if c = ''[{"name": "Ann", "skills": ["Python", null, "Go"]}]''
        then Inr (JList [JObj [(''name'', JStr ''Ann''),
                               (''skills'', JList [JStr ''Python'', JNull, JStr ''Go''])]])
      else if c = ''[{"name": "Bob", "skills": null}]''
        then Inr (JList [JObj [(''name'', JStr ''Bob''), (''skills'', JNull)]])
      else if c = ''[{"name": "Cy"}, 7, {"name": "Di"}]''
        then Inr (JList [JObj [(''name'', JStr ''Cy'')], JInt 7, JObj [(''name'', JStr ''Di'')]])
      else Inl JSONDecodeError)\<close>

definition scripted :: "string list \<Rightarrow> script env" where
  "scripted pdf_files =
     \<lparr>zerox_file = (\<lambda>file_path output_dir. next_transcript),
      zerox_text = (\<lambda>text. next_splitting),
      llm_invoke = (\<lambda>content. next_reply),
      json_loads = toy_loads,
      py_repr = (\<lambda>v. ''<repr>''),
      mkdir = (\<lambda>output_dir. Inr ()),
      glob_pdf = (\<lambda>resume_directory. pdf_files)\<rparr>"

text \<open>
  A reply that is not JSON and that \<^verbatim>\<open>json.loads\<close> does not reject with
  \<^verbatim>\<open>JSONDecodeError\<close>: on a thousand opening brackets the parser of CPython 3.11 runs out
  of stack and raises \<^verbatim>\<open>RecursionError\<close>. \<open>nesting_loads\<close> is \<open>toy_loads\<close> with that
  text added.
\<close>

definition deep_reply :: string where
  "deep_reply = replicate 1000 (CHR ''['')"

definition nesting_loads :: "string \<Rightarrow> exn + json" where
  "nesting_loads c =
     (if c = deep_reply then Inl (OtherException ''RecursionError'') else toy_loads c)"

section \<open>Properties of the pipeline\<close>

subsection \<open>The stages return, and only add to the call log\<close>

lemma process_single_resume_returns:
  "\<exists>v s1. process_single_resume env text s = (Inr v, s1)"
  by (auto simp: process_single_resume_def split: prod.splits sum.splits exn.splits)

lemma split_resumes_returns:
  "\<exists>segs s1. split_resumes env text s = (Inr segs, s1)"
  by (auto simp: split_resumes_def split: prod.splits sum.splits zerox_value.splits)

lemma process_pdf_file_returns:
  "\<exists>results s1. process_pdf_file env file_path output_dir s = (Inr results, s1)"
  by (auto simp: process_pdf_file_def split: prod.splits sum.splits)

lemma invoke_log: "invoke env content s = (r, s') \<Longrightarrow> snd s' = snd s @ [Invoke content]"
  by (auto simp: invoke_def split: prod.splits)

lemma transcribe_log:
  "transcribe env file_path output_dir s = (r, s') \<Longrightarrow>
     snd s' = snd s @ [Transcribe file_path output_dir]"
  by (auto simp: transcribe_def split: prod.splits)

lemma zerox_split_log: "zerox_split env text s = (r, s') \<Longrightarrow> snd s' = snd s @ [Split text]"
  by (auto simp: zerox_split_def split: prod.splits)

lemma check_multiple_resumes_log:
  "check_multiple_resumes env text s = (r, s') \<Longrightarrow> set (snd s) \<subseteq> set (snd s')"
  by (auto simp: check_multiple_resumes_def split: prod.splits sum.splits exn.splits
           dest!: invoke_log)

lemma process_single_resume_log:
  "process_single_resume env text s = (r, s') \<Longrightarrow> set (snd s) \<subseteq> set (snd s')"
  by (auto simp: process_single_resume_def split: prod.splits sum.splits exn.splits
           dest!: invoke_log)

lemma split_resumes_log:
  "split_resumes env text s = (r, s') \<Longrightarrow> set (snd s) \<subseteq> set (snd s')"
  by (auto simp: split_resumes_def split: prod.splits sum.splits zerox_value.splits
           dest!: zerox_split_log)

lemma resume_texts_of_log:
  "resume_texts_of env check_result text s = (r, s') \<Longrightarrow> set (snd s) \<subseteq> set (snd s')"
  by (auto simp: resume_texts_of_def split: sum.splits if_splits dest!: split_resumes_log)

lemma process_resumes_log:
  "process_resumes env idx texts acc s = (r, s') \<Longrightarrow> set (snd s) \<subseteq> set (snd s')"
proof (induction texts arbitrary: idx acc s)
  case Nil
  then show ?case by simp
next
  case (Cons t ts)
  obtain v s1 where ps: "process_single_resume env t s = (Inr v, s1)"
    using process_single_resume_returns by blast
  have l1: "set (snd s) \<subseteq> set (snd s1)" using process_single_resume_log [OF ps] .
  show ?case
  proof (cases "py_setitem v ''resume_index'' (JInt idx)")
    case (Inl e)
    with ps Cons.prems l1 show ?thesis by auto
  next
    case (Inr v')
    with ps Cons.prems have "process_resumes env (idx + 1) ts (acc @ [v']) s1 = (r, s')" by simp
    from Cons.IH [OF this] l1 show ?thesis by blast
  qed
qed

lemma process_pdf_body_log:
  assumes "process_pdf_body env file_path output_dir s = (r, s')"
  shows "set (snd s) \<subseteq> set (snd s') \<and> Transcribe file_path output_dir \<in> set (snd s')"
proof -
  obtain r1 s1 where t: "transcribe env file_path output_dir s = (r1, s1)"
    by (cases "transcribe env file_path output_dir s") blast
  have l1: "snd s1 = snd s @ [Transcribe file_path output_dir]" using transcribe_log [OF t] .
  show ?thesis
  proof (cases r1)
    case (Inl e)
    with t assms l1 show ?thesis by (auto simp: process_pdf_body_def)
  next
    case (Inr doc)
    obtain r2 s2 where c: "check_multiple_resumes env doc s1 = (r2, s2)"
      by (cases "check_multiple_resumes env doc s1") blast
    have l2: "set (snd s1) \<subseteq> set (snd s2)" using check_multiple_resumes_log [OF c] .
    show ?thesis
    proof (cases r2)
      case (Inl e)
      with t c Inr assms l1 l2 show ?thesis by (auto simp: process_pdf_body_def)
    next
      case cr: (Inr check_result)
      obtain r3 s3 where x: "resume_texts_of env check_result doc s2 = (r3, s3)"
        by (cases "resume_texts_of env check_result doc s2") blast
      have l3: "set (snd s2) \<subseteq> set (snd s3)" using resume_texts_of_log [OF x] .
      show ?thesis
      proof (cases r3)
        case (Inl e)
        with t c x Inr cr assms l1 l2 l3 show ?thesis by (auto simp: process_pdf_body_def)
      next
        case tx: (Inr texts)
        with t c x Inr cr assms have "process_resumes env 1 texts [] s3 = (r, s')"
          by (simp add: process_pdf_body_def)
        from process_resumes_log [OF this] l1 l2 l3 show ?thesis by auto
      qed
    qed
  qed
qed

lemma process_pdf_file_log:
  assumes "process_pdf_file env file_path output_dir s = (r, s')"
  shows "set (snd s) \<subseteq> set (snd s') \<and> Transcribe file_path output_dir \<in> set (snd s')"
proof -
  obtain r0 s0 where b: "process_pdf_body env file_path output_dir s = (r0, s0)"
    by (cases "process_pdf_body env file_path output_dir s") blast
  with assms have "s' = s0" by (auto simp: process_pdf_file_def split: sum.splits)
  with process_pdf_body_log [OF b] show ?thesis by simp
qed

subsection \<open>Dictionaries\<close>

lemma map_of_dict_set: "map_of (dict_set kvs key v) key = Some v"
  by (induction kvs key v rule: dict_set.induct) auto

lemma map_of_dict_set_other: "k \<noteq> key \<Longrightarrow> map_of (dict_set kvs key v) k = map_of kvs k"
  by (induction kvs key v rule: dict_set.induct) auto

lemma py_setitem_lookup:
  "py_setitem r key v = Inr r' \<Longrightarrow> py_get r' key d = Inr v"
  by (cases r) (auto simp: map_of_dict_set)

subsection \<open>The loops\<close>

lemma process_resumes_indexed:
  "list_all is_dict (extractions env texts s) \<Longrightarrow>
   \<exists>recs s'. process_resumes env idx texts acc s = (Inr (acc @ recs), s') \<and>
     length recs = length texts \<and>
     (\<forall>k<length texts.
        py_setitem (extractions env texts s ! k) ''resume_index'' (JInt (idx + int k))
          = Inr (recs ! k))"
proof (induction texts arbitrary: idx acc s)
  case Nil
  then show ?case by simp
next
  case (Cons t ts)
  obtain v s1 where ps: "process_single_resume env t s = (Inr v, s1)"
    using process_single_resume_returns by blast
  with Cons.prems have dv: "is_dict v" and rest: "list_all is_dict (extractions env ts s1)"
    by simp_all
  from dv obtain kvs where v: "v = JObj kvs" by (cases v) simp_all
  let ?r = "JObj (dict_set kvs ''resume_index'' (JInt idx))"
  from Cons.IH [OF rest, of "idx + 1" "acc @ [?r]"]
  obtain recs s' where run: "process_resumes env (idx + 1) ts (acc @ [?r]) s1 = (Inr ((acc @ [?r]) @ recs), s')"
    and len: "length recs = length ts"
    and each: "\<forall>k<length ts.
        py_setitem (extractions env ts s1 ! k) ''resume_index'' (JInt (idx + 1 + int k)) = Inr (recs ! k)"
    by blast
  have "process_resumes env idx (t # ts) acc s = (Inr (acc @ (?r # recs)), s')"
    using ps v run by simp
  moreover have "length (?r # recs) = length (t # ts)" using len by simp
  moreover have "\<forall>k<length (t # ts).
        py_setitem (extractions env (t # ts) s ! k) ''resume_index'' (JInt (idx + int k))
          = Inr ((?r # recs) ! k)"
  proof (intro allI impI)
    fix k assume k: "k < length (t # ts)"
    show "py_setitem (extractions env (t # ts) s ! k) ''resume_index'' (JInt (idx + int k))
          = Inr ((?r # recs) ! k)"
    proof (cases k)
      case 0
      then show ?thesis using ps v by simp
    next
      case (Suc j)
      with k have "j < length ts" by simp
      with each have "py_setitem (extractions env ts s1 ! j) ''resume_index'' (JInt (idx + 1 + int j)) = Inr (recs ! j)"
        by blast
      moreover have "idx + 1 + int j = idx + int (Suc j)" by simp
      ultimately show ?thesis using Suc ps by simp
    qed
  qed
  ultimately show ?case by blast
qed

lemma process_files_covers:
  "\<exists>results' s'. process_files env pdf_files output_dir results s = (Inr results', s') \<and>
      dom results' = dom results \<union> set pdf_files \<and>
      (\<forall>f. f \<notin> set pdf_files \<longrightarrow> results' f = results f) \<and>
      set (snd s) \<subseteq> set (snd s') \<and>
      (\<forall>f\<in>set pdf_files. Transcribe f output_dir \<in> set (snd s'))"
proof (induction pdf_files arbitrary: results s)
  case Nil
  then show ?case by simp
next
  case (Cons p ps)
  obtain r s1 where pf: "process_pdf_file env p output_dir s = (Inr r, s1)"
    using process_pdf_file_returns by blast
  from process_pdf_file_log [OF pf]
  have l1: "set (snd s) \<subseteq> set (snd s1)" and t1: "Transcribe p output_dir \<in> set (snd s1)"
    by simp_all
  from Cons.IH [of "results(p \<mapsto> r)" s1]
  obtain results' s' where run: "process_files env ps output_dir (results(p \<mapsto> r)) s1 = (Inr results', s')"
    and d: "dom results' = dom (results(p \<mapsto> r)) \<union> set ps"
    and keep: "\<forall>f. f \<notin> set ps \<longrightarrow> results' f = (results(p \<mapsto> r)) f"
    and l2: "set (snd s1) \<subseteq> set (snd s')"
    and t2: "\<forall>f\<in>set ps. Transcribe f output_dir \<in> set (snd s')"
    by blast
  have "process_files env (p # ps) output_dir results s = (Inr results', s')"
    using pf run by simp
  moreover have "dom results' = dom results \<union> set (p # ps)" using d by auto
  moreover have "\<forall>f. f \<notin> set (p # ps) \<longrightarrow> results' f = results f" using keep by auto
  moreover have "set (snd s) \<subseteq> set (snd s')" using l1 l2 by blast
  moreover have "\<forall>f\<in>set (p # ps). Transcribe f output_dir \<in> set (snd s')"
    using t1 t2 l2 by auto
  ultimately show ?case by blast
qed

lemma process_files_append:
  "process_files env (xs @ ys) output_dir results s =
     (case process_files env xs output_dir results s of
        (Inl e, s1) \<Rightarrow> (Inl e, s1)
      | (Inr results1, s1) \<Rightarrow> process_files env ys output_dir results1 s1)"
proof (induction xs arbitrary: results s)
  case Nil
  then show ?case by simp
next
  case (Cons x xs)
  obtain r s1 where "process_pdf_file env x output_dir s = (Inr r, s1)"
    using process_pdf_file_returns by blast
  then have "process_files env (x # xs @ ys) output_dir results s =
               process_files env (xs @ ys) output_dir (results(x \<mapsto> r)) s1"
    and "process_files env (x # xs) output_dir results s =
               process_files env xs output_dir (results(x \<mapsto> r)) s1"
    by simp_all
  then show ?case unfolding append_Cons by (simp only: Cons.IH)
qed

lemma process_files_entry:
  assumes run: "process_files env (before @ f # after) output_dir results s = (Inr results', s')"
    and last: "f \<notin> set after"
  shows "\<exists>r s1. process_pdf_file env f output_dir (snd (process_files env before output_dir results s))
            = (Inr r, s1) \<and> results' f = Some r"
proof -
  obtain results1 sf where b: "process_files env before output_dir results s = (Inr results1, sf)"
    using process_files_covers [of env before output_dir results s] by blast
  obtain r s1 where pf: "process_pdf_file env f output_dir sf = (Inr r, s1)"
    using process_pdf_file_returns by blast
  from run b pf have a: "process_files env after output_dir (results1(f \<mapsto> r)) s1 = (Inr results', s')"
    by (simp add: process_files_append)
  from process_files_covers [of env after output_dir "results1(f \<mapsto> r)" s1] a last
  have "results' f = Some r" by auto
  with b pf show ?thesis by simp
qed

subsection \<open>Evaluating the scripted examples\<close>

lemmas run_defs =
  process_pdf_file_def process_pdf_body_def transcribe_def check_multiple_resumes_def
  invoke_def resume_texts_of_def split_resumes_def zerox_split_def process_single_resume_def
  scripted_def next_transcript_def next_reply_def next_splitting_def toy_loads_def
  default_detection_def

subsection \<open>C1: isolation of a failing file\<close>

text \<open>
  Claim C1 says that an exception of any stage of a file (transcription, detection,
  splitting, extraction) is caught at the file boundary and makes the entry of the file
  the list \<open>[{}]\<close>. For the splitting call and the extraction call that is not what
  the program does: \<^verbatim>\<open>split_resumes\<close> and \<^verbatim>\<open>process_single_resume\<close> catch the
  exception themselves. In the first file below the model call of the extraction raises and
  the entry is \<open>[{resume_index: 1}]\<close>; in the second the splitting call raises and the
  entry is the record extracted from the whole text.
\<close>

theorem C1_counterexample:
  \<open>invoke (scripted []) (RESUME_PROMPT ''doc'')
      (Script [] [Inl (OtherException ''rate limit'')] [],
       [Transcribe ''a.pdf'' ''out'', Invoke (SPLIT_PROMPT @ NL @ NL @ ''doc'')])
     = (Inl (OtherException ''rate limit''),
        (Script [] [] [],
         [Transcribe ''a.pdf'' ''out'', Invoke (SPLIT_PROMPT @ NL @ NL @ ''doc''),
          Invoke (RESUME_PROMPT ''doc'')])) \<and>
   fst (process_pdf_file (scripted []) ''a.pdf'' ''out''
      (Script [Inr ''doc'']
              [Inr ''{"multiple_resumes": false, "resume_count": 1}'',
               Inl (OtherException ''rate limit'')] [], []))
     = Inr [JObj [(''resume_index'', JInt 1)]] \<and>
   zerox_split (scripted []) ''doc''
      (Script [] [Inr ''{"name": "Ann"}''] [Inl (OtherException ''split failed'')],
       [Transcribe ''b.pdf'' ''out'', Invoke (SPLIT_PROMPT @ NL @ NL @ ''doc'')])
     = (Inl (OtherException ''split failed''),
        (Script [] [Inr ''{"name": "Ann"}''] [],
         [Transcribe ''b.pdf'' ''out'', Invoke (SPLIT_PROMPT @ NL @ NL @ ''doc''),
          Split ''doc''])) \<and>
   fst (process_pdf_file (scripted []) ''b.pdf'' ''out''
      (Script [Inr ''doc'']
              [Inr ''{"multiple_resumes": true, "resume_count": 3}'', Inr ''{"name": "Ann"}'']
              [Inl (OtherException ''split failed'')], []))
     = Inr [JObj [(''name'', JStr ''Ann''), (''resume_index'', JInt 1)]]\<close>
  by (simp add: run_defs)

text \<open>
  C1 as amended: when the output directory can be created, the batch returns a results
  mapping whose keys are exactly the input files, every input file has been handed to the
  transcription service, and the entry of a file is what \<^verbatim>\<open>process_pdf_file\<close> returned
  for it in the state the files before it left. \<^verbatim>\<open>process_pdf_file\<close> never raises; when
  the transcription raises, or the detector raises, the entry is \<open>[{}]\<close>. The extractor
  and the splitter return normally whatever their service does, so an exception of theirs
  does not reach the file boundary.
\<close>

theorem C1_file_isolation:
  assumes "mkdir env output_dir = Inr ()"
  shows "(\<exists>results s'.
     process_multiple_files env resume_directory output_dir s = (Inr results, s') \<and>
     dom results = set (glob_pdf env resume_directory) \<and>
     (\<forall>f\<in>set (glob_pdf env resume_directory). Transcribe f output_dir \<in> set (snd s')) \<and>
     (\<forall>before f after.
        glob_pdf env resume_directory = before @ f # after \<and> f \<notin> set after \<longrightarrow>
        (\<exists>r s1.
           process_pdf_file env f output_dir
             (snd (process_files env before output_dir Map.empty s)) = (Inr r, s1) \<and>
           results f = Some r \<and>
           ((\<exists>e s2. transcribe env f output_dir
                      (snd (process_files env before output_dir Map.empty s)) = (Inl e, s2))
              \<longrightarrow> r = [JObj []]) \<and>
           ((\<exists>text s2 e s3.
               transcribe env f output_dir
                 (snd (process_files env before output_dir Map.empty s)) = (Inr text, s2) \<and>
               check_multiple_resumes env text s2 = (Inl e, s3))
              \<longrightarrow> r = [JObj []])))) \<and>
     (\<forall>resume_text s0. \<exists>result s1.
        process_single_resume env resume_text s0 = (Inr result, s1)) \<and>
     (\<forall>extracted_text s0. \<exists>segments s1.
        split_resumes env extracted_text s0 = (Inr segments, s1))"
proof -
  let ?files = "glob_pdf env resume_directory"
  from process_files_covers [of env ?files output_dir Map.empty s]
  obtain results s' where run: "process_files env ?files output_dir Map.empty s = (Inr results, s')"
    and d: "dom results = set ?files"
    and t: "\<forall>f\<in>set ?files. Transcribe f output_dir \<in> set (snd s')"
    by auto
  have m: "process_multiple_files env resume_directory output_dir s = (Inr results, s')"
    using assms run by (simp add: process_multiple_files_def)
  have "\<forall>before f after.
        ?files = before @ f # after \<and> f \<notin> set after \<longrightarrow>
        (\<exists>r s1.
           process_pdf_file env f output_dir
             (snd (process_files env before output_dir Map.empty s)) = (Inr r, s1) \<and>
           results f = Some r \<and>
           ((\<exists>e s2. transcribe env f output_dir
                      (snd (process_files env before output_dir Map.empty s)) = (Inl e, s2))
              \<longrightarrow> r = [JObj []]) \<and>
           ((\<exists>text s2 e s3.
               transcribe env f output_dir
                 (snd (process_files env before output_dir Map.empty s)) = (Inr text, s2) \<and>
               check_multiple_resumes env text s2 = (Inl e, s3))
              \<longrightarrow> r = [JObj []]))"
  proof (intro allI impI)
    fix before f after
    assume h: "?files = before @ f # after \<and> f \<notin> set after"
    let ?sf = "snd (process_files env before output_dir Map.empty s)"
    from h run have "process_files env (before @ f # after) output_dir Map.empty s = (Inr results, s')"
      by simp
    from process_files_entry [OF this] h
    obtain r s1 where pf: "process_pdf_file env f output_dir ?sf = (Inr r, s1)"
      and e: "results f = Some r" by blast
    have a: "(\<exists>e s2. transcribe env f output_dir ?sf = (Inl e, s2)) \<longrightarrow> r = [JObj []]"
      using pf by (auto simp: process_pdf_file_def process_pdf_body_def)
    have b: "(\<exists>text s2 e s3. transcribe env f output_dir ?sf = (Inr text, s2) \<and>
               check_multiple_resumes env text s2 = (Inl e, s3)) \<longrightarrow> r = [JObj []]"
      using pf by (auto simp: process_pdf_file_def process_pdf_body_def)
    from pf e a b
    show "\<exists>r s1.
           process_pdf_file env f output_dir ?sf = (Inr r, s1) \<and>
           results f = Some r \<and>
           ((\<exists>e s2. transcribe env f output_dir ?sf = (Inl e, s2)) \<longrightarrow> r = [JObj []]) \<and>
           ((\<exists>text s2 e s3.
               transcribe env f output_dir ?sf = (Inr text, s2) \<and>
               check_multiple_resumes env text s2 = (Inl e, s3))
              \<longrightarrow> r = [JObj []])"
      by blast
  qed
  with m d t have "\<exists>results s'.
     process_multiple_files env resume_directory output_dir s = (Inr results, s') \<and>
     dom results = set ?files \<and>
     (\<forall>f\<in>set ?files. Transcribe f output_dir \<in> set (snd s')) \<and>
     (\<forall>before f after.
        ?files = before @ f # after \<and> f \<notin> set after \<longrightarrow>
        (\<exists>r s1.
           process_pdf_file env f output_dir
             (snd (process_files env before output_dir Map.empty s)) = (Inr r, s1) \<and>
           results f = Some r \<and>
           ((\<exists>e s2. transcribe env f output_dir
                      (snd (process_files env before output_dir Map.empty s)) = (Inl e, s2))
              \<longrightarrow> r = [JObj []]) \<and>
           ((\<exists>text s2 e s3.
               transcribe env f output_dir
                 (snd (process_files env before output_dir Map.empty s)) = (Inr text, s2) \<and>
               check_multiple_resumes env text s2 = (Inl e, s3))
              \<longrightarrow> r = [JObj []])))"
    by blast
  then show ?thesis
    using process_single_resume_returns [of env] split_resumes_returns [of env] by blast
qed

theorem C1_file_isolation_witness:
  \<open>mkdir (scripted [''a.pdf'', ''b.pdf'']) ''out'' = Inr () \<and>
   (\<exists>results s'.
      process_multiple_files (scripted [''a.pdf'', ''b.pdf'']) ''resumes'' ''out''
        (Script [Inl (OtherException ''unreadable''), Inr ''doc'']
                [Inr ''{"multiple_resumes": false, "resume_count": 1}'', Inr ''{"name": "Ann"}'']
                [], []) = (Inr results, s') \<and>
      dom results = {''a.pdf'', ''b.pdf''} \<and>
      Transcribe ''b.pdf'' ''out'' \<in> set (snd s') \<and>
      results ''a.pdf'' = Some [JObj []] \<and>
      results ''b.pdf'' = Some [JObj [(''name'', JStr ''Ann''), (''resume_index'', JInt 1)]])\<close>
proof -
  let ?E = "scripted [''a.pdf'', ''b.pdf'']"
  let ?S = \<open>(Script [Inl (OtherException ''unreadable''), Inr ''doc'']
                [Inr ''{"multiple_resumes": false, "resume_count": 1}'', Inr ''{"name": "Ann"}'']
                [], [])\<close>
  have h: "mkdir ?E ''out'' = Inr ()" by (simp add: scripted_def)
  have g: "glob_pdf ?E ''resumes'' = [''a.pdf'', ''b.pdf'']" by (simp add: scripted_def)
  from C1_file_isolation [OF h, of "''resumes''" ?S, THEN conjunct1]
  obtain results s' where run: "process_multiple_files ?E ''resumes'' ''out'' ?S = (Inr results, s')"
    and d: "dom results = set (glob_pdf ?E ''resumes'')"
    and t: "\<forall>f\<in>set (glob_pdf ?E ''resumes''). Transcribe f ''out'' \<in> set (snd s')"
    and ent: "\<forall>before f after.
        glob_pdf ?E ''resumes'' = before @ f # after \<and> f \<notin> set after \<longrightarrow>
        (\<exists>r s1.
           process_pdf_file ?E f ''out''
             (snd (process_files ?E before ''out'' Map.empty ?S)) = (Inr r, s1) \<and>
           results f = Some r \<and>
           ((\<exists>e s2. transcribe ?E f ''out''
                      (snd (process_files ?E before ''out'' Map.empty ?S)) = (Inl e, s2))
              \<longrightarrow> r = [JObj []]) \<and>
           ((\<exists>text s2 e s3.
               transcribe ?E f ''out''
                 (snd (process_files ?E before ''out'' Map.empty ?S)) = (Inr text, s2) \<and>
               check_multiple_resumes ?E text s2 = (Inl e, s3))
              \<longrightarrow> r = [JObj []]))"
    by blast
  from ent [rule_format, of "[]" "''a.pdf''" "[''b.pdf'']"] g
  have a: "results ''a.pdf'' = Some [JObj []]"
    by (auto simp: transcribe_def scripted_def next_transcript_def)
  from ent [rule_format, of "[''a.pdf'']" "''b.pdf''" "[]"] g
  have b: "results ''b.pdf'' = Some [JObj [(''name'', JStr ''Ann''), (''resume_index'', JInt 1)]]"
    by (auto simp: run_defs)
  from h run d t g a b show ?thesis by auto
qed

subsection \<open>C2: the detector and a reply that is not JSON\<close>

text \<open>
  Claim C2: for every reply of the model to the detection prompt that is not parseable as
  JSON, \<^verbatim>\<open>check_multiple_resumes\<close> returns exactly
  \<open>{multiple_resumes: false, resume_count: 1}\<close> and lets no parse failure out.
  The handler of \<^verbatim>\<open>check_multiple_resumes\<close> names \<^verbatim>\<open>json.JSONDecodeError\<close> only, and
  \<^verbatim>\<open>json.loads\<close> raises other exceptions on some texts that are not JSON: on a thousand
  opening brackets it raises \<^verbatim>\<open>RecursionError\<close>, on an integer literal of more than 4300
  digits followed by other text it raises a plain \<^verbatim>\<open>ValueError\<close>.
  \<^verbatim>\<open>process_single_resume\<close> has an outer handler for every exception of the same call;
  the detector has none. Here the reply is the thousand brackets: the exception leaves the
  detector, and \<^verbatim>\<open>process_pdf_file\<close> gives \<open>[{}]\<close> for the file without extracting
  anything.
\<close>

theorem C2_failing_input:
  "json_loads ((scripted [])\<lparr>json_loads := nesting_loads\<rparr>) deep_reply
     = Inl (OtherException ''RecursionError'') \<and>
   check_multiple_resumes ((scripted [])\<lparr>json_loads := nesting_loads\<rparr>) ''doc''
       (Script [] [Inr deep_reply] [], [Transcribe ''a.pdf'' ''out''])
     = (Inl (OtherException ''RecursionError''),
        (Script [] [] [],
         [Transcribe ''a.pdf'' ''out'', Invoke (SPLIT_PROMPT @ NL @ NL @ ''doc'')])) \<and>
   process_pdf_file ((scripted [])\<lparr>json_loads := nesting_loads\<rparr>) ''a.pdf'' ''out''
       (Script [Inr ''doc''] [Inr deep_reply] [], [])
     = (Inr [JObj []],
        (Script [] [] [],
         [Transcribe ''a.pdf'' ''out'', Invoke (SPLIT_PROMPT @ NL @ NL @ ''doc'')]))"
  by (simp add: process_pdf_file_def process_pdf_body_def transcribe_def
        check_multiple_resumes_def invoke_def scripted_def next_transcript_def next_reply_def
        nesting_loads_def)

text \<open>
  What the detector does with a reply the parser rejects: the default when the exception is
  \<^verbatim>\<open>JSONDecodeError\<close>, the exception itself otherwise.
\<close>

theorem detector_default:
  assumes "invoke env (SPLIT_PROMPT @ NL @ NL @ text) s = (Inr content, s1)"
    and "json_loads env content = Inl JSONDecodeError"
  shows "check_multiple_resumes env text s =
           (Inr (JObj [(''multiple_resumes'', JBool False), (''resume_count'', JInt 1)]), s1)"
  using assms by (simp add: check_multiple_resumes_def default_detection_def)

theorem detector_default_example:
  "invoke (scripted []) (SPLIT_PROMPT @ NL @ NL @ ''one resume'') (Script [] [Inr ''Sure! Here it is''] [], [])
     = (Inr ''Sure! Here it is'', (Script [] [] [], [Invoke (SPLIT_PROMPT @ NL @ NL @ ''one resume'')])) \<and>
   json_loads (scripted []) ''Sure! Here it is'' = Inl JSONDecodeError \<and>
   check_multiple_resumes (scripted []) ''one resume'' (Script [] [Inr ''Sure! Here it is''] [], [])
     = (Inr (JObj [(''multiple_resumes'', JBool False), (''resume_count'', JInt 1)]),
        (Script [] [] [], [Invoke (SPLIT_PROMPT @ NL @ NL @ ''one resume'')]))"
proof -
  have h1: "invoke (scripted []) (SPLIT_PROMPT @ NL @ NL @ ''one resume'') (Script [] [Inr ''Sure! Here it is''] [], [])
     = (Inr ''Sure! Here it is'', (Script [] [] [], [Invoke (SPLIT_PROMPT @ NL @ NL @ ''one resume'')]))"
    by (simp add: invoke_def scripted_def next_reply_def)
  have h2: "json_loads (scripted []) ''Sure! Here it is'' = Inl JSONDecodeError"
    by (simp add: scripted_def toy_loads_def)
  from detector_default [OF h1 h2] h1 h2 show ?thesis by simp
qed

lemma detector_propagates:
  assumes "invoke env (SPLIT_PROMPT @ NL @ NL @ text) s = (Inr content, s1)"
    and "json_loads env content = Inl e" and "e \<noteq> JSONDecodeError"
  shows "check_multiple_resumes env text s = (Inl e, s1)"
  using assms by (cases e) (simp_all add: check_multiple_resumes_def)

subsection \<open>C3: resume_index in segment order\<close>

text \<open>
  Claim C3: for a file with \<open>n\<close> segments the \<open>k\<close>-th record carries \<open>resume_index\<close>
  \<open>k\<close>, whatever the extraction of each segment gives, and a reply that is not valid JSON
  gives exactly the empty mapping plus its \<open>resume_index\<close>.
  \<^verbatim>\<open>process_single_resume\<close> is annotated to return a \<^verbatim>\<open>Dict\<close> but returns whatever
  \<^verbatim>\<open>json.loads\<close> gives. When a reply is valid JSON and not an object, the assignment
  \<^verbatim>\<open>result["resume_index"] = idx\<close> raises \<^verbatim>\<open>TypeError\<close>, the handler of
  \<^verbatim>\<open>process_pdf_file\<close> takes over and the file yields \<open>[{}]\<close>. Here the document has
  two segments, both are sent to the model, the reply for the first is an object and the
  reply for the second is the JSON array \<open>[]\<close>: the record of the first segment is lost
  and no record carries a \<open>resume_index\<close>.
\<close>

theorem C3_failing_input:
  \<open>process_pdf_file (scripted []) ''cv.pdf'' ''out''
      (Script [Inr ''doc'']
              [Inr ''{"multiple_resumes": true, "resume_count": 3}'',
               Inr ''{"name": "Ann"}'', Inr ''[]'']
              [Inr (ZList [''r1'', ''r2''])], [])
     = (Inr [JObj []],
        (Script [] [] [],
         [Transcribe ''cv.pdf'' ''out'', Invoke (SPLIT_PROMPT @ NL @ NL @ ''doc''),
          Split ''doc'', Invoke (RESUME_PROMPT ''r1''), Invoke (RESUME_PROMPT ''r2'')]))\<close>
  by (simp add: run_defs)

text \<open>
  When every value the extractor returns for the segments is a mapping, the loop does
  what the claim asks for: it returns one record per segment, the \<open>k\<close>-th (from 0) is the extracted
  record with \<open>resume_index\<close> set to \<open>k + 1\<close>, and where the extractor returned the empty
  mapping the record is exactly \<open>{resume_index: k + 1}\<close>. A reply that is not valid JSON
  makes the extractor return the empty mapping.
\<close>

theorem resume_index_in_order:
  assumes "list_all is_dict (extractions env resume_texts s)"
  shows "(\<exists>results s'.
           process_resumes env 1 resume_texts [] s = (Inr results, s') \<and>
           length results = length resume_texts \<and>
           (\<forall>k<length resume_texts.
              py_get (results ! k) ''resume_index'' JNull = Inr (JInt (int k + 1)) \<and>
              py_setitem (extractions env resume_texts s ! k) ''resume_index'' (JInt (int k + 1))
                = Inr (results ! k) \<and>
              (extractions env resume_texts s ! k = JObj [] \<longrightarrow>
                 results ! k = JObj [(''resume_index'', JInt (int k + 1))]))) \<and>
         (\<forall>text s0 content s1.
            invoke env (RESUME_PROMPT text) s0 = (Inr content, s1) \<and>
            json_loads env content = Inl JSONDecodeError \<longrightarrow>
              process_single_resume env text s0 = (Inr (JObj []), s1))"
proof -
  from process_resumes_indexed [OF assms, of 1 "[]"]
  obtain recs s' where run: "process_resumes env 1 resume_texts [] s = (Inr recs, s')"
    and len: "length recs = length resume_texts"
    and each: "\<forall>k<length resume_texts.
        py_setitem (extractions env resume_texts s ! k) ''resume_index'' (JInt (1 + int k))
          = Inr (recs ! k)"
    by auto
  have "\<forall>k<length resume_texts.
              py_get (recs ! k) ''resume_index'' JNull = Inr (JInt (int k + 1)) \<and>
              py_setitem (extractions env resume_texts s ! k) ''resume_index'' (JInt (int k + 1))
                = Inr (recs ! k) \<and>
              (extractions env resume_texts s ! k = JObj [] \<longrightarrow>
                 recs ! k = JObj [(''resume_index'', JInt (int k + 1))])"
  proof (intro allI impI)
    fix k assume "k < length resume_texts"
    with each have e: "py_setitem (extractions env resume_texts s ! k) ''resume_index'' (JInt (int k + 1))
          = Inr (recs ! k)" by (simp add: add.commute)
    show "py_get (recs ! k) ''resume_index'' JNull = Inr (JInt (int k + 1)) \<and>
              py_setitem (extractions env resume_texts s ! k) ''resume_index'' (JInt (int k + 1))
                = Inr (recs ! k) \<and>
              (extractions env resume_texts s ! k = JObj [] \<longrightarrow>
                 recs ! k = JObj [(''resume_index'', JInt (int k + 1))])"
      using e py_setitem_lookup [OF e] by auto
  qed
  moreover have "\<forall>text s0 content s1.
            invoke env (RESUME_PROMPT text) s0 = (Inr content, s1) \<and>
            json_loads env content = Inl JSONDecodeError \<longrightarrow>
              process_single_resume env text s0 = (Inr (JObj []), s1)"
    by (simp add: process_single_resume_def)
  ultimately show ?thesis using run len by blast
qed

theorem resume_index_in_order_example:
  \<open>list_all is_dict
     (extractions (scripted []) [''r1'', ''r2'', ''r3'']
        (Script [] [Inr ''{"name": "Ann"}'', Inr ''I cannot help'',
                    Inl (OtherException ''timeout'')] [], [])) \<and>
   (\<exists>results s'.
      process_resumes (scripted []) 1 [''r1'', ''r2'', ''r3''] []
        (Script [] [Inr ''{"name": "Ann"}'', Inr ''I cannot help'',
                    Inl (OtherException ''timeout'')] [], []) = (Inr results, s') \<and>
      length results = 3 \<and>
      results ! 0 = JObj [(''name'', JStr ''Ann''), (''resume_index'', JInt 1)] \<and>
      results ! 1 = JObj [(''resume_index'', JInt 2)] \<and>
      results ! 2 = JObj [(''resume_index'', JInt 3)])\<close>
proof -
  let ?S = \<open>(Script [] [Inr ''{"name": "Ann"}'', Inr ''I cannot help'',
                    Inl (OtherException ''timeout'')] [], [])\<close>
  have x: "extractions (scripted []) [''r1'', ''r2'', ''r3''] ?S
             = [JObj [(''name'', JStr ''Ann'')], JObj [], JObj []]"
    by (simp add: run_defs)
  then have h: "list_all is_dict (extractions (scripted []) [''r1'', ''r2'', ''r3''] ?S)"
    by simp
  from resume_index_in_order [OF h, THEN conjunct1]
  obtain results s' where run: "process_resumes (scripted []) 1 [''r1'', ''r2'', ''r3''] [] ?S = (Inr results, s')"
    and len: "length results = length [''r1'', ''r2'', ''r3'']"
    and each: "\<forall>k<length [''r1'', ''r2'', ''r3''].
              py_get (results ! k) ''resume_index'' JNull = Inr (JInt (int k + 1)) \<and>
              py_setitem (extractions (scripted []) [''r1'', ''r2'', ''r3''] ?S ! k) ''resume_index'' (JInt (int k + 1))
                = Inr (results ! k) \<and>
              (extractions (scripted []) [''r1'', ''r2'', ''r3''] ?S ! k = JObj [] \<longrightarrow>
                 results ! k = JObj [(''resume_index'', JInt (int k + 1))])"
    by blast
  note each' = each [unfolded x]
  have k0: "(0::nat) < length [''r1'', ''r2'', ''r3'']" by simp
  have k1: "(1::nat) < length [''r1'', ''r2'', ''r3'']" by simp
  have k2: "(2::nat) < length [''r1'', ''r2'', ''r3'']" by simp
  from each' [rule_format, OF k0, THEN conjunct2, THEN conjunct1]
  have r0: "results ! 0 = JObj [(''name'', JStr ''Ann''), (''resume_index'', JInt 1)]" by simp
  from each' [rule_format, OF k1, THEN conjunct2, THEN conjunct1]
  have r1: "results ! 1 = JObj [(''resume_index'', JInt 2)]" by simp
  from each' [rule_format, OF k2, THEN conjunct2, THEN conjunct1]
  have r2: "results ! 2 = JObj [(''resume_index'', JInt 3)]" by simp
  from h run len r0 r1 r2 show ?thesis by auto
qed

subsection \<open>C4: the splitter falls back to the whole text\<close>

text \<open>
  Claim C4: when the splitting call raises, or returns something that is not a list (so in
  particular when it returns a non-sequence), \<^verbatim>\<open>split_resumes\<close> returns the list whose
  only element is the input text; and \<^verbatim>\<open>split_resumes\<close> returns normally in every
  case.
\<close>

theorem C4_splitter_fallback:
  "(zerox_split env text s = (r, s1) \<and> ((\<exists>e. r = Inl e) \<or> r = Inr ZOther)
      \<longrightarrow> split_resumes env text s = (Inr [text], s1)) \<and>
   (\<exists>segments s'. split_resumes env text s = (Inr segments, s'))"
  by (auto simp: split_resumes_def split: prod.splits sum.splits zerox_value.splits)

theorem C4_splitter_fallback_witness:
  "zerox_split (scripted []) ''doc'' (Script [] [] [Inl (OtherException ''service down'')], [])
     = (Inl (OtherException ''service down''), (Script [] [] [], [Split ''doc''])) \<and>
   split_resumes (scripted []) ''doc'' (Script [] [] [Inl (OtherException ''service down'')], [])
     = (Inr [''doc''], (Script [] [] [], [Split ''doc''])) \<and>
   zerox_split (scripted []) ''doc'' (Script [] [] [Inr ZOther], [])
     = (Inr ZOther, (Script [] [] [], [Split ''doc''])) \<and>
   split_resumes (scripted []) ''doc'' (Script [] [] [Inr ZOther], [])
     = (Inr [''doc''], (Script [] [] [], [Split ''doc'']))"
proof -
  have a: "zerox_split (scripted []) ''doc'' (Script [] [] [Inl (OtherException ''service down'')], [])
     = (Inl (OtherException ''service down''), (Script [] [] [], [Split ''doc'']))"
    by (simp add: zerox_split_def scripted_def next_splitting_def)
  have b: "zerox_split (scripted []) ''doc'' (Script [] [] [Inr ZOther], [])
     = (Inr ZOther, (Script [] [] [], [Split ''doc'']))"
    by (simp add: zerox_split_def scripted_def next_splitting_def)
  from C4_splitter_fallback [THEN conjunct1, rule_format, of "scripted []" "''doc''" _ "Inl (OtherException ''service down'')"] a
  have c: "split_resumes (scripted []) ''doc'' (Script [] [] [Inl (OtherException ''service down'')], [])
     = (Inr [''doc''], (Script [] [] [], [Split ''doc'']))" by blast
  from C4_splitter_fallback [THEN conjunct1, rule_format, of "scripted []" "''doc''" _ "Inr ZOther"] b
  have d: "split_resumes (scripted []) ''doc'' (Script [] [] [Inr ZOther], [])
     = (Inr [''doc''], (Script [] [] [], [Split ''doc'']))" by blast
  from a b c d show ?thesis by simp
qed

subsection \<open>C5: a single-resume document is one segment\<close>

text \<open>
  Claim C5: when the detection result has \<open>multiple_resumes = false\<close>, the segments are
  the one-element list of the full text, and the state, the call log included, is unchanged:
  no splitting call is made. In \<^verbatim>\<open>process_pdf_file\<close> the extraction loop then runs on that
  one segment.
\<close>

theorem C5_single_segment:
  assumes "map_of kvs ''multiple_resumes'' = Some (JBool False)"
  shows "resume_texts_of env (JObj kvs) text s = (Inr [text], s) \<and>
         (transcribe env file_path output_dir s0 = (Inr text, s1) \<and>
          check_multiple_resumes env text s1 = (Inr (JObj kvs), s2)
            \<longrightarrow> process_pdf_body env file_path output_dir s0 = process_resumes env 1 [text] [] s2)"
  using assms by (simp add: resume_texts_of_def process_pdf_body_def)

theorem C5_single_segment_witness:
  \<open>map_of [(''multiple_resumes'', JBool False), (''resume_count'', JInt 1)] ''multiple_resumes''
     = Some (JBool False) \<and>
   resume_texts_of (scripted []) (JObj [(''multiple_resumes'', JBool False), (''resume_count'', JInt 1)])
     ''doc'' (Script [] [] [Inr (ZList [''r1'', ''r2''])], [])
     = (Inr [''doc''], (Script [] [] [Inr (ZList [''r1'', ''r2''])], [])) \<and>
   process_pdf_body (scripted []) ''a.pdf'' ''out''
      (Script [Inr ''doc''] [Inr ''{"multiple_resumes": false, "resume_count": 1}'',
                             Inr ''{"name": "Ann"}''] [Inr (ZList [''r1'', ''r2''])], [])
     = process_resumes (scripted []) 1 [''doc''] []
         (Script [] [Inr ''{"name": "Ann"}''] [Inr (ZList [''r1'', ''r2''])],
          [Transcribe ''a.pdf'' ''out'', Invoke (SPLIT_PROMPT @ NL @ NL @ ''doc'')])\<close>
proof -
  have h: "map_of [(''multiple_resumes'', JBool False), (''resume_count'', JInt 1)] ''multiple_resumes''
     = Some (JBool False)" by simp
  have t: \<open>transcribe (scripted []) ''a.pdf'' ''out''
      (Script [Inr ''doc''] [Inr ''{"multiple_resumes": false, "resume_count": 1}'',
                             Inr ''{"name": "Ann"}''] [Inr (ZList [''r1'', ''r2''])], [])
     = (Inr ''doc'', (Script [] [Inr ''{"multiple_resumes": false, "resume_count": 1}'',
                             Inr ''{"name": "Ann"}''] [Inr (ZList [''r1'', ''r2''])],
                      [Transcribe ''a.pdf'' ''out'']))\<close>
    by (simp add: run_defs)
  have c: \<open>check_multiple_resumes (scripted []) ''doc''
      (Script [] [Inr ''{"multiple_resumes": false, "resume_count": 1}'',
                             Inr ''{"name": "Ann"}''] [Inr (ZList [''r1'', ''r2''])],
                      [Transcribe ''a.pdf'' ''out''])
     = (Inr (JObj [(''multiple_resumes'', JBool False), (''resume_count'', JInt 1)]),
        (Script [] [Inr ''{"name": "Ann"}''] [Inr (ZList [''r1'', ''r2''])],
          [Transcribe ''a.pdf'' ''out'', Invoke (SPLIT_PROMPT @ NL @ NL @ ''doc'')]))\<close>
    by (simp add: run_defs)
  from C5_single_segment [OF h, of "scripted []" "''doc''"] t c h show ?thesis by blast
qed

subsection \<open>C6: the number of segments\<close>

text \<open>
  Claim C6 says that in the multi-resume case the number of segments equals the
  \<open>resume_count\<close> of the detector. The program never reads \<open>resume_count\<close>: below the
  detector reports three resumes, the splitting call returns two segments, and two
  segments are processed.
\<close>

theorem C6_counterexample:
  \<open>fst (check_multiple_resumes (scripted []) ''doc''
          (Script [] [Inr ''{"multiple_resumes": true, "resume_count": 3}'']
                  [Inr (ZList [''r1'', ''r2''])], []))
     = Inr (JObj [(''multiple_resumes'', JBool True), (''resume_count'', JInt 3)]) \<and>
   fst (resume_texts_of (scripted [])
          (JObj [(''multiple_resumes'', JBool True), (''resume_count'', JInt 3)]) ''doc''
          (Script [] [] [Inr (ZList [''r1'', ''r2''])], [Invoke (SPLIT_PROMPT @ NL @ NL @ ''doc'')]))
     = Inr [''r1'', ''r2'']\<close>
  by (simp add: run_defs)

text \<open>
  C6 as amended: for a detection result that is a mapping, the segments are computed
  without an exception; their number is the length of the list the splitting call returns
  when \<open>multiple_resumes\<close> is true and the call returns a list, and 1 otherwise (the flag
  is false or absent, the call raises, or it returns something else). Changing
  \<open>resume_count\<close> changes nothing.
\<close>

theorem C6_segment_count:
  "\<exists>segments s'.
     resume_texts_of env (JObj kvs) text s = (Inr segments, s') \<and>
     length segments =
       (if truthy (case map_of kvs ''multiple_resumes'' of None \<Rightarrow> JBool False | Some v \<Rightarrow> v)
        then (case fst (zerox_split env text s) of
                Inr (ZList l) \<Rightarrow> length l
              | _ \<Rightarrow> 1)
        else 1) \<and>
     resume_texts_of env (JObj (dict_set kvs ''resume_count'' n)) text s
       = resume_texts_of env (JObj kvs) text s"
  by (auto simp: resume_texts_of_def split_resumes_def map_of_dict_set_other
           split: option.splits prod.splits sum.splits zerox_value.splits)

theorem C6_segment_count_witness:
  \<open>\<exists>segments s'.
     resume_texts_of (scripted [])
       (JObj [(''multiple_resumes'', JBool True), (''resume_count'', JInt 3)]) ''doc''
       (Script [] [] [Inr (ZList [''r1'', ''r2''])], []) = (Inr segments, s') \<and>
     length segments = 2 \<and>
     resume_texts_of (scripted [])
       (JObj [(''multiple_resumes'', JBool True), (''resume_count'', JInt 2)]) ''doc''
       (Script [] [] [Inr (ZList [''r1'', ''r2''])], []) = (Inr segments, s')\<close>
  using C6_segment_count [of "scripted []"
      "[(''multiple_resumes'', JBool True), (''resume_count'', JInt 3)]" "''doc''"
      "(Script [] [] [Inr (ZList [''r1'', ''r2''])], [])" "JInt 2"]
  by (auto simp: zerox_split_def scripted_def next_splitting_def)

section \<open>Properties of the aggregator\<close>

subsection \<open>Rows written by one call\<close>

lemma write_rows_append:
  "write_rows env resumes f =
     (fst (write_rows env resumes []), f @ snd (write_rows env resumes []))"
proof (induction resumes arbitrary: f)
  case Nil
  then show ?case by simp
next
  case (Cons r rs)
  show ?case
  proof (cases "csv_row env r")
    case (Inl e)
    then show ?thesis by simp
  next
    case (Inr row)
    have "write_rows env (r # rs) f = write_rows env rs (f @ [row])" using Inr by simp
    also have "\<dots> = (fst (write_rows env rs []), (f @ [row]) @ snd (write_rows env rs []))"
      by (rule Cons.IH)
    also have "\<dots> = (fst (write_rows env rs [row]), f @ snd (write_rows env rs [row]))"
      using Cons.IH [of "[row]"] by simp
    finally show ?thesis using Inr by simp
  qed
qed

lemma snd_write_rows:
  "snd (write_rows env resumes f) = f @ snd (write_rows env resumes [])"
  by (subst write_rows_append) simp

lemma write_rows_all:
  "map (csv_row env) resumes = map Inr rows \<Longrightarrow> write_rows env resumes f = (Inr (), f @ rows)"
proof (induction resumes arbitrary: rows f)
  case Nil
  then show ?case by simp
next
  case (Cons r rs)
  then obtain row rows' where "rows = row # rows'" "csv_row env r = Inr row"
    "map (csv_row env) rs = map Inr rows'" by (cases rows) auto
  with Cons.IH [of rows' "f @ [row]"] show ?case by simp
qed

lemma write_rows_stop:
  "map (csv_row env) pre = map Inr rows \<Longrightarrow> csv_row env bad = Inl e \<Longrightarrow>
     write_rows env (pre @ bad # post) f = (Inl e, f @ rows)"
proof (induction pre arbitrary: rows f)
  case Nil
  then show ?case by simp
next
  case (Cons r rs)
  then obtain row rows' where "rows = row # rows'" "csv_row env r = Inr row"
    "map (csv_row env) rs = map Inr rows'" by (cases rows) auto
  with Cons.IH [of rows' "f @ [row]"] Cons.prems(2) show ?case by simp
qed

lemma append_csv_rows:
  "snd (append_csv env parsed_json file_exists f) =
     (if file_exists then f else f @ [HEADER]) @ data_rows env parsed_json"
proof (cases "py_iter parsed_json")
  case (Inl e)
  then show ?thesis by (simp add: append_csv_def data_rows_def)
next
  case (Inr resumes)
  show ?thesis
  proof (cases file_exists)
    case True
    with Inr show ?thesis
      using snd_write_rows [of env resumes f] by (simp add: append_csv_def data_rows_def)
  next
    case False
    with Inr show ?thesis
      using snd_write_rows [of env resumes "f @ [HEADER]"]
      by (simp add: append_csv_def data_rows_def)
  qed
qed

lemma json_to_csv_parsed:
  assumes "json_loads env json_content = Inr parsed_json"
  shows "json_to_csv env json_content output_dir fs =
     (Inr (), fs(csv_path output_dir \<mapsto>
        (case fs (csv_path output_dir) of None \<Rightarrow> [HEADER] | Some rows \<Rightarrow> rows)
          @ data_rows env parsed_json))"
proof -
  let ?f = "case fs (csv_path output_dir) of None \<Rightarrow> [] | Some rows \<Rightarrow> rows"
  let ?ex = "fs (csv_path output_dir) \<noteq> None"
  obtain r f' where a: "append_csv env parsed_json ?ex ?f = (r, f')"
    by (cases "append_csv env parsed_json ?ex ?f") blast
  from append_csv_rows [of env parsed_json ?ex ?f] a
  have "f' = (if ?ex then ?f else ?f @ [HEADER]) @ data_rows env parsed_json" by simp
  then have f': "f' = (case fs (csv_path output_dir) of None \<Rightarrow> [HEADER] | Some rows \<Rightarrow> rows)
          @ data_rows env parsed_json"
    by (cases "fs (csv_path output_dir)") simp_all
  show ?thesis using assms a f'
    by (cases r) (simp_all add: json_to_csv_def Let_def)
qed

lemma json_to_csv_unparsed:
  assumes "json_loads env json_content = Inl e"
  shows "json_to_csv env json_content output_dir fs = (Inr (), fs)"
  using assms by (cases e) (simp_all add: json_to_csv_def)

lemma data_rows_all:
  "map (csv_row env) resumes = map Inr rows \<Longrightarrow> data_rows env (JList resumes) = rows"
  using write_rows_all [of env resumes rows "[]"] by (simp add: data_rows_def)

lemmas row_defs =
  data_rows_def csv_row_def skills_str_def experience_str_def field_str_def
  replace_newlines_def

subsection \<open>C7: the header is written once\<close>

text \<open>
  Claim C7: a call writes the header only when the destination does not exist when the
  call starts. On a destination that does not exist a call whose JSON parses leaves the
  header followed by its data rows; on an existing destination it appends its data rows
  and nothing else; a call whose JSON does not parse writes nothing. So two calls in a row
  on a fresh destination leave one header, then the data rows of the first call, then those
  of the second. When every row of a parsed array can be built, the data rows of the call
  are the rows of its elements, in order.
\<close>

theorem C7_header_once:
  "(json_loads env c = Inr p \<and> fs (csv_path out) = None \<longrightarrow>
      snd (json_to_csv env c out fs) (csv_path out) = Some (HEADER # data_rows env p)) \<and>
   (json_loads env c = Inr p \<and> fs (csv_path out) = Some old \<longrightarrow>
      snd (json_to_csv env c out fs) (csv_path out) = Some (old @ data_rows env p)) \<and>
   (json_loads env c = Inl e \<longrightarrow> snd (json_to_csv env c out fs) = fs) \<and>
   (json_loads env c1 = Inr p1 \<and> json_loads env c2 = Inr p2 \<and> fs (csv_path out) = None \<longrightarrow>
      snd (json_to_csv env c2 out (snd (json_to_csv env c1 out fs))) (csv_path out)
        = Some (HEADER # data_rows env p1 @ data_rows env p2)) \<and>
   (map (csv_row env) resumes = map Inr rows \<longrightarrow> data_rows env (JList resumes) = rows)"
  by (simp add: json_to_csv_parsed json_to_csv_unparsed data_rows_all)

theorem C7_header_once_witness:
  \<open>json_loads (scripted []) ''[{"name": "Ann", "skills": ["Python", null, "Go"]}]''
     = Inr (JList [JObj [(''name'', JStr ''Ann''),
                         (''skills'', JList [JStr ''Python'', JNull, JStr ''Go''])]]) \<and>
   json_loads (scripted []) ''[{"name": "Bob", "skills": null}]''
     = Inr (JList [JObj [(''name'', JStr ''Bob''), (''skills'', JNull)]]) \<and>
   Map.empty (csv_path ''out'') = (None :: string list list option) \<and>
   snd (json_to_csv (scripted []) ''[{"name": "Bob", "skills": null}]'' ''out''
          (snd (json_to_csv (scripted [])
                  ''[{"name": "Ann", "skills": ["Python", null, "Go"]}]'' ''out'' Map.empty)))
       (csv_path ''out'')
     = Some [[''Name'', ''Email'', ''Mobile'', ''Experience'', ''Skills''],
             [''Ann'', '''', '''', '''', ''Python;Go''],
             [''Bob'', '''', '''', '''', '''']]\<close>
proof -
  let ?E = "scripted []"
  let ?p1 = "JList [JObj [(''name'', JStr ''Ann''),
                         (''skills'', JList [JStr ''Python'', JNull, JStr ''Go''])]]"
  let ?p2 = "JList [JObj [(''name'', JStr ''Bob''), (''skills'', JNull)]]"
  have l1: \<open>json_loads ?E ''[{"name": "Ann", "skills": ["Python", null, "Go"]}]'' = Inr ?p1\<close>
    by (simp add: scripted_def toy_loads_def)
  have l2: \<open>json_loads ?E ''[{"name": "Bob", "skills": null}]'' = Inr ?p2\<close>
    by (simp add: scripted_def toy_loads_def)
  have e: "Map.empty (csv_path ''out'') = (None :: string list list option)" by simp
  have d1: "data_rows ?E ?p1 = [[''Ann'', '''', '''', '''', ''Python;Go'']]"
    by (simp add: row_defs)
  have d2: "data_rows ?E ?p2 = [[''Bob'', '''', '''', '''', '''']]"
    by (simp add: row_defs)
  note c = C7_header_once [of ?E _ _ Map.empty "''out''" _ _
      \<open>''[{"name": "Ann", "skills": ["Python", null, "Go"]}]''\<close> ?p1
      \<open>''[{"name": "Bob", "skills": null}]''\<close> ?p2]
  from c l1 l2 e
  have \<open>snd (json_to_csv ?E ''[{"name": "Bob", "skills": null}]'' ''out''
          (snd (json_to_csv ?E
                  ''[{"name": "Ann", "skills": ["Python", null, "Go"]}]'' ''out'' Map.empty)))
       (csv_path ''out'') = Some (HEADER # data_rows ?E ?p1 @ data_rows ?E ?p2)\<close>
    by blast
  with l1 l2 e d1 d2 show ?thesis by (simp add: HEADER_def)
qed

subsection \<open>C8: the skills cell\<close>

text \<open>
  Claim C8: for a candidate object, a \<open>skills\<close> field that is absent or null gives the
  empty string; for a list, the null elements are dropped and the others are passed
  through \<^verbatim>\<open>str\<close> and joined with \<open>;\<close>, so
  \<open>["Python", null, "Go"]\<close> gives \<open>Python;Go\<close>; and that string is the last cell of
  the row of the candidate. Elements that are not strings are written as \<^verbatim>\<open>str\<close>
  writes them: \<open>[3, null, true, 2.5, -12, false]\<close> gives \<open>3;True;2.5;-12;False\<close>, and a
  nested list gives its \<^verbatim>\<open>repr\<close>.
\<close>

theorem C8_skills_cell:
  "((map_of kvs ''skills'' = None \<or> map_of kvs ''skills'' = Some JNull) \<longrightarrow>
      skills_str env (JObj kvs) = Inr '''') \<and>
   (map_of kvs ''skills'' = Some (JList elems) \<longrightarrow>
      skills_str env (JObj kvs)
        = Inr (join '';'' (map (py_str env) (filter (\<lambda>skill. skill \<noteq> JNull) elems)))) \<and>
   skills_str env (JObj [(''skills'', JList [JStr ''Python'', JNull, JStr ''Go''])])
     = Inr ''Python;Go'' \<and>
   skills_str env
       (JObj [(''skills'',
               JList [JInt 3, JNull, JBool True, JFloat ''2.5'', JInt (- 12), JBool False])])
     = Inr ''3;True;2.5;-12;False'' \<and>
   skills_str env (JObj [(''skills'', JList [JList [JInt 1], JNull, JStr ''Go''])])
     = Inr (py_repr env (JList [JInt 1]) @ '';Go'') \<and>
   (skills_str env (JObj kvs) = Inr cell \<longrightarrow>
      (\<exists>name email mobile experience.
         csv_row env (JObj kvs) = Inr [name, email, mobile, experience, cell]))"
proof -
  have absent: "(map_of kvs ''skills'' = None \<or> map_of kvs ''skills'' = Some JNull) \<longrightarrow>
      skills_str env (JObj kvs) = Inr ''''"
    by (auto simp: skills_str_def)
  have listed: "map_of kvs ''skills'' = Some (JList elems) \<longrightarrow>
      skills_str env (JObj kvs)
        = Inr (join '';'' (map (py_str env) (filter (\<lambda>skill. skill \<noteq> JNull) elems)))"
    by (simp add: skills_str_def)
  have strings: "skills_str env (JObj [(''skills'', JList [JStr ''Python'', JNull, JStr ''Go''])])
     = Inr ''Python;Go''"
    by (simp add: skills_str_def)
  have scalars: "skills_str env
       (JObj [(''skills'',
               JList [JInt 3, JNull, JBool True, JFloat ''2.5'', JInt (- 12), JBool False])])
     = Inr ''3;True;2.5;-12;False''"
    by (simp add: skills_str_def str_int_def)
  have nested: "skills_str env (JObj [(''skills'', JList [JList [JInt 1], JNull, JStr ''Go''])])
     = Inr (py_repr env (JList [JInt 1]) @ '';Go'')"
    by (simp add: skills_str_def)
  have cell: "skills_str env (JObj kvs) = Inr cell \<longrightarrow>
      (\<exists>name email mobile experience.
         csv_row env (JObj kvs) = Inr [name, email, mobile, experience, cell])"
    by (auto simp: csv_row_def experience_str_def field_str_def split: option.splits)
  from absent listed strings scalars nested cell show ?thesis by (intro conjI)
qed

theorem C8_skills_cell_witness:
  "map_of [(''name'', JStr ''Bob''), (''skills'', JNull)] ''skills'' = Some JNull \<and>
   skills_str (scripted []) (JObj [(''name'', JStr ''Bob''), (''skills'', JNull)]) = Inr '''' \<and>
   map_of [(''name'', JStr ''Ann''), (''skills'', JList [JStr ''Python'', JNull, JStr ''Go''])]
       ''skills'' = Some (JList [JStr ''Python'', JNull, JStr ''Go'']) \<and>
   skills_str (scripted [])
       (JObj [(''name'', JStr ''Ann''), (''skills'', JList [JStr ''Python'', JNull, JStr ''Go''])])
     = Inr ''Python;Go'' \<and>
   csv_row (scripted [])
       (JObj [(''name'', JStr ''Ann''), (''skills'', JList [JStr ''Python'', JNull, JStr ''Go''])])
     = Inr [''Ann'', '''', '''', '''', ''Python;Go''] \<and>
   map_of [(''name'', JStr ''Eve''), (''skills'', JList [JInt 3, JNull, JBool True, JList []])]
       ''skills'' = Some (JList [JInt 3, JNull, JBool True, JList []]) \<and>
   csv_row (scripted [])
       (JObj [(''name'', JStr ''Eve''), (''skills'', JList [JInt 3, JNull, JBool True, JList []])])
     = Inr [''Eve'', '''', '''', '''', ''3;True;<repr>'']"
proof -
  let ?E = "scripted []"
  let ?bob = "[(''name'', JStr ''Bob''), (''skills'', JNull)]"
  let ?ann = "[(''name'', JStr ''Ann''), (''skills'', JList [JStr ''Python'', JNull, JStr ''Go''])]"
  let ?eve = "[(''name'', JStr ''Eve''), (''skills'', JList [JInt 3, JNull, JBool True, JList []])]"
  have b: "map_of ?bob ''skills'' = Some JNull" by simp
  have a: "map_of ?ann ''skills'' = Some (JList [JStr ''Python'', JNull, JStr ''Go''])" by simp
  have e: "map_of ?eve ''skills'' = Some (JList [JInt 3, JNull, JBool True, JList []])" by simp
  from C8_skills_cell [where kvs = ?bob and env = ?E] b
  have sb: "skills_str ?E (JObj ?bob) = Inr ''''" by blast
  from C8_skills_cell [where kvs = ?ann and env = ?E
      and elems = "[JStr ''Python'', JNull, JStr ''Go'']"] a
  have sa: "skills_str ?E (JObj ?ann)
      = Inr (join '';'' (map (py_str ?E)
               (filter (\<lambda>skill. skill \<noteq> JNull) [JStr ''Python'', JNull, JStr ''Go''])))"
    by blast
  then have sa': "skills_str ?E (JObj ?ann) = Inr ''Python;Go''" by simp
  from C8_skills_cell [where kvs = ?ann and env = ?E and cell = "''Python;Go''"] sa'
  obtain name email mobile experience
    where "csv_row ?E (JObj ?ann) = Inr [name, email, mobile, experience, ''Python;Go'']"
    by blast
  then have r: "csv_row ?E (JObj ?ann) = Inr [''Ann'', '''', '''', '''', ''Python;Go'']"
    by (simp add: row_defs)
  from C8_skills_cell [where kvs = ?eve and env = ?E
      and elems = "[JInt 3, JNull, JBool True, JList []]"] e
  have se: "skills_str ?E (JObj ?eve)
      = Inr (join '';'' (map (py_str ?E)
               (filter (\<lambda>skill. skill \<noteq> JNull) [JInt 3, JNull, JBool True, JList []])))"
    by blast
  then have se': "skills_str ?E (JObj ?eve) = Inr ''3;True;<repr>''"
    by (simp add: str_int_def scripted_def)
  from C8_skills_cell [where kvs = ?eve and env = ?E and cell = "''3;True;<repr>''"] se'
  obtain name email mobile experience
    where "csv_row ?E (JObj ?eve) = Inr [name, email, mobile, experience, ''3;True;<repr>'']"
    by blast
  then have re: "csv_row ?E (JObj ?eve) = Inr [''Eve'', '''', '''', '''', ''3;True;<repr>'']"
    by (simp add: row_defs)
  from a b e sb sa' r re show ?thesis by simp
qed

subsection \<open>C9: a failed call keeps the earlier rows\<close>

text \<open>
  Claim C9: every call returns normally, whatever fails inside it; the rows the destination
  held before the call are a prefix of what it holds after (the file is opened for append,
  never truncated); no other file changes; and when \<^verbatim>\<open>json.loads\<close> raises, the file
  system is left as it was.
\<close>

theorem C9_failed_call_keeps_rows:
  "\<exists>fs'. json_to_csv env c out fs = (Inr (), fs') \<and>
     (\<forall>old. fs (csv_path out) = Some old \<longrightarrow> (\<exists>added. fs' (csv_path out) = Some (old @ added))) \<and>
     (\<forall>p. p \<noteq> csv_path out \<longrightarrow> fs' p = fs p) \<and>
     ((\<exists>e. json_loads env c = Inl e) \<longrightarrow> fs' = fs)"
proof (cases "json_loads env c")
  case (Inl e)
  then show ?thesis by (simp add: json_to_csv_unparsed)
next
  case (Inr p)
  then show ?thesis by (simp add: json_to_csv_parsed)
qed

theorem C9_failed_call_keeps_rows_witness:
  \<open>json_loads (scripted []) ''Here are the candidates:'' = Inl JSONDecodeError \<and>
   json_to_csv (scripted []) ''Here are the candidates:'' ''out''
       [csv_path ''out'' \<mapsto> [HEADER, [''Ann'', '''', '''', '''', ''Python;Go'']]]
     = (Inr (), [csv_path ''out'' \<mapsto> [HEADER, [''Ann'', '''', '''', '''', ''Python;Go'']]]) \<and>
   (\<exists>fs' added.
      json_to_csv (scripted []) ''[{"name": "Cy"}, 7, {"name": "Di"}]'' ''out''
          [csv_path ''out'' \<mapsto> [HEADER, [''Ann'', '''', '''', '''', ''Python;Go'']]]
        = (Inr (), fs') \<and>
      fs' (csv_path ''out'')
        = Some ([HEADER, [''Ann'', '''', '''', '''', ''Python;Go'']] @ added))\<close>
proof -
  let ?E = "scripted []"
  let ?fs = "[csv_path ''out'' \<mapsto> [HEADER, [''Ann'', '''', '''', '''', ''Python;Go'']]]"
  have l: "json_loads ?E ''Here are the candidates:'' = Inl JSONDecodeError"
    by (simp add: scripted_def toy_loads_def)
  have f: "?fs (csv_path ''out'') = Some [HEADER, [''Ann'', '''', '''', '''', ''Python;Go'']]"
    by simp
  from C9_failed_call_keeps_rows [of ?E "''Here are the candidates:''" "''out''" ?fs] l
  have a: "json_to_csv ?E ''Here are the candidates:'' ''out'' ?fs = (Inr (), ?fs)"
    by auto
  from C9_failed_call_keeps_rows
         [of ?E \<open>''[{"name": "Cy"}, 7, {"name": "Di"}]''\<close> "''out''" ?fs] f
  have b: \<open>\<exists>fs' added.
      json_to_csv ?E ''[{"name": "Cy"}, 7, {"name": "Di"}]'' ''out'' ?fs = (Inr (), fs') \<and>
      fs' (csv_path ''out'')
        = Some ([HEADER, [''Ann'', '''', '''', '''', ''Python;Go'']] @ added)\<close>
    by blast
  from l a b show ?thesis by blast
qed

subsection \<open>C10: a failed call can leave a partial batch\<close>

text \<open>
  Claim C10: when the rows of the elements before the \<open>k\<close>-th can be built and the row
  of the \<open>k\<close>-th cannot, the loop ends with that exception, and after the call the
  destination holds what it held before (the header, when it did not exist) followed by
  the rows of the elements before the \<open>k\<close>-th.
\<close>

theorem C10_partial_batch:
  assumes "json_loads env c = Inr (JList (pre @ bad # post))"
    and "map (csv_row env) pre = map Inr rows"
    and "csv_row env bad = Inl e"
  shows "fst (append_csv env (JList (pre @ bad # post)) file_exists f) = Inl e \<and>
         json_to_csv env c out fs =
           (Inr (), fs(csv_path out \<mapsto>
              (case fs (csv_path out) of None \<Rightarrow> [HEADER] | Some old \<Rightarrow> old) @ rows))"
proof -
  have "data_rows env (JList (pre @ bad # post)) = rows"
    using write_rows_stop [OF assms(2,3), of post "[]"] by (simp add: data_rows_def)
  moreover have "fst (append_csv env (JList (pre @ bad # post)) file_exists f) = Inl e"
    using write_rows_stop [OF assms(2,3)] by (simp add: append_csv_def)
  ultimately show ?thesis using json_to_csv_parsed [OF assms(1)] by simp
qed

theorem C10_partial_batch_witness:
  \<open>json_loads (scripted []) ''[{"name": "Cy"}, 7, {"name": "Di"}]''
     = Inr (JList ([JObj [(''name'', JStr ''Cy'')]] @ JInt 7 # [JObj [(''name'', JStr ''Di'')]])) \<and>
   map (csv_row (scripted [])) [JObj [(''name'', JStr ''Cy'')]]
     = map Inr [[''Cy'', '''', '''', '''', '''']] \<and>
   csv_row (scripted []) (JInt 7) = Inl AttributeError \<and>
   json_to_csv (scripted []) ''[{"name": "Cy"}, 7, {"name": "Di"}]'' ''out'' Map.empty
     = (Inr (), [csv_path ''out'' \<mapsto>
                   [[''Name'', ''Email'', ''Mobile'', ''Experience'', ''Skills''],
                    [''Cy'', '''', '''', '''', '''']]])\<close>
proof -
  let ?E = "scripted []"
  have l: \<open>json_loads ?E ''[{"name": "Cy"}, 7, {"name": "Di"}]''
     = Inr (JList ([JObj [(''name'', JStr ''Cy'')]] @ JInt 7 # [JObj [(''name'', JStr ''Di'')]]))\<close>
    by (simp add: scripted_def toy_loads_def)
  have p: "map (csv_row ?E) [JObj [(''name'', JStr ''Cy'')]]
     = map Inr [[''Cy'', '''', '''', '''', '''']]"
    by (simp add: row_defs)
  have b: "csv_row ?E (JInt 7) = Inl AttributeError"
    by (simp add: row_defs)
  from C10_partial_batch [OF l p b, of True "[]" "''out''" Map.empty] l p b
  show ?thesis by (simp add: HEADER_def)
qed

end
